theory Spec2Isabelle
  imports Complex_Main "HOL-Library.Sublist"
begin

section \<open>JavaScript strings and numbers\<close>

text \<open>
  A JavaScript string is modelled as a \<^typ>\<open>string\<close>, one \<^typ>\<open>char\<close> per code unit
  below 256. \<open>String.prototype.trim\<close> removes white space and line terminators from
  both ends; below 256 these are TAB, LF, VT, FF, CR, SPACE and NBSP.
\<close>

definition is_js_whitespace :: "char \<Rightarrow> bool" where
  "is_js_whitespace c \<longleftrightarrow>
     c = CHR 0x09 \<or> c = CHR 0x0A \<or> c = CHR 0x0B \<or> c = CHR 0x0C \<or> c = CHR 0x0D \<or>
     c = CHR 0x20 \<or> c = CHR 0xA0"

definition js_trim :: "string \<Rightarrow> string" where
  "js_trim s = rev (dropWhile is_js_whitespace (rev (dropWhile is_js_whitespace s)))"

definition double_quote :: char where
  "double_quote = CHR 0x22"

text \<open>
  \<^verbatim>\<open>s.replace(/^"|"$/g, '')\<close>: the pattern has two anchored alternatives and no
  multiline flag, so it removes one double quote at the very start, if there is one, and
  then one double quote at the very end of what is left, if there is one.
\<close>

definition strip_surrounding_quotes :: "string \<Rightarrow> string" where
  "strip_surrounding_quotes s =
     (let s1 = (case s of [] \<Rightarrow> [] | c # cs \<Rightarrow> if c = double_quote then cs else c # cs)
      in if s1 \<noteq> [] \<and> last s1 = double_quote then butlast s1 else s1)"

text \<open>
  \<^verbatim>\<open>s.split(sep)\<close> for a separator string: scan from the left, cut at every
  occurrence of the separator and skip it. The empty separator splits into single code
  units.
\<close>

function split_from :: "string \<Rightarrow> string \<Rightarrow> string \<Rightarrow> string list" where
  "split_from sep acc [] = [rev acc]"
| "split_from sep acc (c # cs) =
     (if sep \<noteq> [] \<and> prefix sep (c # cs)
      then rev acc # split_from sep [] (drop (length sep) (c # cs))
      else split_from sep (c # acc) cs)"
  by pat_completeness auto
termination
  by (relation "measure (\<lambda>(sep, acc, s). length s)") (auto simp: neq_Nil_conv)

definition js_split :: "string \<Rightarrow> string \<Rightarrow> string list" where
  "js_split sep s = (if sep = [] then map (\<lambda>c. [c]) s else split_from sep [] s)"

text \<open>
  A JavaScript number that results from the arithmetic of the handler: finite values are
  kept as exact reals (rounding to the nearest double is not modelled), and the three
  special values of IEEE 754 are constructors of their own.
\<close>

datatype jsnum = Num real | PosInfinity | NegInfinity | NaN

text \<open>\<^verbatim>\<open>a / b\<close> for finite operands, the divisor being a non-negative length.\<close>

definition js_div :: "real \<Rightarrow> real \<Rightarrow> jsnum" where
  "js_div a b =
     (if b = 0 then (if a = 0 then NaN else if 0 < a then PosInfinity else NegInfinity)
      else Num (a / b))"


section \<open>The attendance endpoint: \<^verbatim>\<open>POST /api/process-attendance\<close>\<close>

subsection \<open>Parsing the CSV text\<close>

text \<open>
  The row separator of the handler is the string literal \<^verbatim>\<open>'\\n'\<close>, that is the two
  code units backslash and \<open>n\<close>, not a line feed.
\<close>

definition row_separator :: string where
  "row_separator = [CHR 0x5C, CHR ''n'']"

text \<open>\<^verbatim>\<open>cell.trim().replace(/^"|"$/g, '')\<close>\<close>

definition clean_cell :: "string \<Rightarrow> string" where
  "clean_cell cell = strip_surrounding_quotes (js_trim cell)"

text \<open>The code units that one application of \<open>clean_cell\<close> removes at an end of a cell.\<close>

definition is_boundary_char :: "char \<Rightarrow> bool" where
  "is_boundary_char c \<longleftrightarrow> is_js_whitespace c \<or> c = double_quote"

definition split_row :: "string \<Rightarrow> string list" where
  "split_row row = map clean_cell (js_split '','' row)"

text \<open>\<^verbatim>\<open>row.some(cell => cell.length > 0)\<close>\<close>

definition some_nonempty :: "string list \<Rightarrow> bool" where
  "some_nonempty row = list_ex (\<lambda>cell. 0 < length cell) row"

definition parse_csv :: "string \<Rightarrow> string list list" where
  "parse_csv csvData = filter some_nonempty (map split_row (js_split row_separator csvData))"

subsection \<open>The request, the oracle and the response\<close>

record student =
  student_id :: nat
  student_name :: string
  student_email :: string

text \<open>
  The request body. \<open>csvData\<close> is \<open>None\<close> when the field is missing; \<open>students\<close>
  defaults to the empty list. The field \<open>options\<close> is read from the body and never used.
\<close>

record request_body =
  csvData :: "string option"
  students :: "student list"

definition sampleStudents_default :: "student list" where
  "sampleStudents_default =
    [\<lparr>student_id = 1, student_name = ''John Smith'', student_email = ''john.smith@university.edu''\<rparr>,
     \<lparr>student_id = 2, student_name = ''Emily Johnson'', student_email = ''emily.johnson@university.edu''\<rparr>,
     \<lparr>student_id = 3, student_name = ''Michael Brown'', student_email = ''michael.brown@university.edu''\<rparr>,
     \<lparr>student_id = 4, student_name = ''Sarah Davis'', student_email = ''sarah.davis@university.edu''\<rparr>,
     \<lparr>student_id = 5, student_name = ''David Wilson'', student_email = ''david.wilson@university.edu''\<rparr>]"

text \<open>
  What the prompt sent to the oracle is built from: the student list, the header row and
  the first ten data rows (\<^verbatim>\<open>dataRows.slice(0, 10)\<close>).
\<close>

record oracle_request =
  prompt_students :: "student list"
  prompt_headers :: "string list"
  prompt_rows :: "string list list"

text \<open>
  The call \<^verbatim>\<open>await deepseek.chat.completions.create(...)\<close> either rejects with an error
  message (service unavailable, timeout, HTTP error) or resolves to a response whose
  \<open>choices\<close> array is given here by the \<open>message.content\<close> of each choice, \<open>None\<close>
  when it is missing or null.
\<close>

datatype oracle_outcome = Rejects string | Resolves "string option list"

text \<open>
  One entry of \<open>matches\<close> and one of \<open>unmatched\<close>; \<open>match_method\<close> is the
  property \<^verbatim>\<open>method\<close> of the source.
\<close>

record ai_match =
  originalName :: string
  studentId :: string
  studentName :: string
  confidence :: real
  match_method :: string

record ai_unmatched =
  unmatched_originalName :: string
  unmatched_reason :: string

text \<open>
  The object \<open>aiResult\<close> in the shape the prompt asks for: \<open>matches\<close> and \<open>unmatched\<close>
  are arrays, or \<open>None\<close> when the property is missing or null; every match carries a
  finite numeric \<open>confidence\<close>. An answer of another shape (\<open>matches\<close> not an array,
  a \<open>confidence\<close> that is not a number) is outside the model. \<open>JSON.parse\<close> is a
  built-in of the language and a parameter here: it returns \<open>None\<close> where the built-in
  throws a \<open>SyntaxError\<close>.
\<close>

record ai_result =
  ai_matches :: "ai_match list option"
  ai_unmatched :: "ai_unmatched list option"

definition fallback_result :: ai_result where
  "fallback_result = \<lparr>ai_matches = Some [], ai_unmatched = Some []\<rparr>"

text \<open>\<^verbatim>\<open>response.choices[0]?.message?.content\<close>\<close>

definition aiResponseText :: "string option list \<Rightarrow> string option" where
  "aiResponseText choices = (case choices of [] \<Rightarrow> None | c # _ \<Rightarrow> c)"

text \<open>
  \<^verbatim>\<open>text.match(/\{[\s\S]*\}/)\<close>: the leftmost opening brace up to the last closing
  brace after it; no match when there is no such pair.
\<close>

definition jsonMatch :: "string \<Rightarrow> string option" where
  "jsonMatch text =
     (case dropWhile (\<lambda>c. c \<noteq> CHR ''{'') text of
        [] \<Rightarrow> None
      | b # rest \<Rightarrow>
          (case rev (dropWhile (\<lambda>c. c \<noteq> CHR ''}'') (rev rest)) of
             [] \<Rightarrow> None
           | body \<Rightarrow> Some (b # body)))"

text \<open>
  The inner \<^verbatim>\<open>try\<close> block. A missing text makes \<^verbatim>\<open>aiResponseText.match\<close> throw a
  \<open>TypeError\<close>, which the \<^verbatim>\<open>catch\<close> turns into the fallback like a \<open>SyntaxError\<close> of
  \<open>JSON.parse\<close>.
\<close>

definition parse_ai_response :: "(string \<Rightarrow> ai_result option) \<Rightarrow> string option \<Rightarrow> ai_result" where
  "parse_ai_response JSON_parse text =
     (case text of
        None \<Rightarrow> fallback_result
      | Some t \<Rightarrow>
          (case jsonMatch t of
             None \<Rightarrow> fallback_result
           | Some m \<Rightarrow> (case JSON_parse m of None \<Rightarrow> fallback_result | Some r \<Rightarrow> r)))"

text \<open>
  \<^verbatim>\<open>aiResult.matches ? aiResult.matches.reduce((sum, m) => sum + m.confidence, 0)
     / aiResult.matches.length : 0\<close>; an array is truthy also when it is empty.
\<close>

definition overall_confidence :: "ai_result \<Rightarrow> jsnum" where
  "overall_confidence aiResult =
     (case ai_matches aiResult of
        None \<Rightarrow> Num 0
      | Some ms \<Rightarrow> js_div (foldl (\<lambda>sum m. sum + confidence m) 0 ms) (real (length ms)))"

text \<open>The three readings of the clock: \<^verbatim>\<open>Date.now() - Date.now()\<close> and \<^verbatim>\<open>new Date()\<close>.\<close>

record clock =
  now_first :: int
  now_second :: int
  now_iso :: string

record processing_data =
  totalRows :: nat
  headers :: "string list"
  matches :: "ai_match list"
  unmatched :: "ai_unmatched list"
  data_confidence :: jsnum
  processingTime :: int

record processingResult =
  data :: processing_data
  ai_raw_response :: "string option"
  timestamp :: string

text \<open>
  The answers of the handler: \<open>res.json\<close> with status 200 and \<open>success: true\<close>, or
  status 400 or 500 with \<open>success: false\<close> and an error message.
\<close>

datatype http_response =
  Json200 processingResult
| Json400 string
| Json500 string

definition build_request :: "student list \<Rightarrow> string list list \<Rightarrow> oracle_request" where
  "build_request studs rows =
     \<lparr>prompt_students = (if 0 < length studs then studs else sampleStudents_default),
      prompt_headers = rows ! 0,
      prompt_rows = take 10 (drop 1 rows)\<rparr>"

definition process_attendance ::
  "(oracle_request \<Rightarrow> oracle_outcome) \<Rightarrow> (string \<Rightarrow> ai_result option) \<Rightarrow> clock \<Rightarrow>
   request_body \<Rightarrow> http_response" where
  "process_attendance ask JSON_parse clk body =
     (case csvData body of
        None \<Rightarrow> Json400 ''CSV data is required''
      | Some csv \<Rightarrow>
          if csv = [] then Json400 ''CSV data is required''
          else
            let rows = parse_csv csv in
            if length rows < 2
            then Json400 ''CSV must contain headers and at least one data row''
            else
              (case ask (build_request (students body) rows) of
                 Rejects msg \<Rightarrow> Json500 msg
               | Resolves choices \<Rightarrow>
                   let aiResult = parse_ai_response JSON_parse (aiResponseText choices) in
                   Json200
                     \<lparr>data =
                        \<lparr>totalRows = length (drop 1 rows),
                         headers = rows ! 0,
                         matches = (case ai_matches aiResult of None \<Rightarrow> [] | Some ms \<Rightarrow> ms),
                         unmatched = (case ai_unmatched aiResult of None \<Rightarrow> [] | Some us \<Rightarrow> us),
                         data_confidence = overall_confidence aiResult,
                         processingTime = now_first clk - now_second clk\<rparr>,
                      ai_raw_response = aiResponseText choices,
                      timestamp = now_iso clk\<rparr>))"


subsection \<open>Reading a response\<close>

definition response_data :: "http_response \<Rightarrow> processing_data option" where
  "response_data resp = (case resp of Json200 r \<Rightarrow> Some (data r) | _ \<Rightarrow> None)"

text \<open>The rows reported as matched, when the request succeeded.\<close>

definition reported_matches :: "http_response \<Rightarrow> ai_match list option" where
  "reported_matches resp = map_option matches (response_data resp)"

definition match_confidences :: "http_response \<Rightarrow> real list option" where
  "match_confidences resp = map_option (map confidence) (reported_matches resp)"




text \<open>
  \<^verbatim>\<open>AI_CONFIDENCE_THRESHOLD: z.string().default('0.7').transform(Number)\<close> of the
  backend's configuration.
\<close>

definition AI_CONFIDENCE_THRESHOLD_default :: real where
  "AI_CONFIDENCE_THRESHOLD_default = 7 / 10"


section \<open>The background job: \<^verbatim>\<open>AttendanceController\<close>\<close>

subsection \<open>The stored data\<close>

datatype ProcessingStatus = PENDING | PROCESSING | COMPLETED | FAILED

text \<open>
  What a \<^verbatim>\<open>catch\<close> receives: an \<open>Error\<close> with its message, or some other value. The
  stored message is \<^verbatim>\<open>error instanceof Error ? error.message : 'Unknown error'\<close>.
\<close>

datatype thrown = Error string | NotAnError

definition error_message :: "thrown \<Rightarrow> string" where
  "error_message e = (case e of Error m \<Rightarrow> m | NotAnError \<Rightarrow> ''Unknown error'')"

record MatchedRecord =
  matched_originalName :: string
  matched_studentId :: string
  matched_studentName :: string
  matched_confidence :: real
  matched_method :: string

record UnmatchedRecord =
  record_originalName :: string
  record_reason :: string
  record_suggestions :: "(string \<times> real) list"

text \<open>The properties of the result that \<open>processFileAsync\<close> reads.\<close>

record AIMatchingResult =
  result_matches :: "MatchedRecord list"
  result_unmatched :: "UnmatchedRecord list"

record AIMatchingRequest =
  request_fileName :: string
  request_csvData :: string
  request_sessionId :: "string option"

record ProcessedRecord =
  fileUploadId :: string
  processed_originalName :: string
  matchedStudentId :: "string option"
  record_confidence :: real
  matchMethod :: string
  isVerified :: bool

record FileUpload =
  upload_originalName :: string
  filePath :: string
  upload_sessionId :: "string option"
  uploadedBy :: string
  processingStatus :: ProcessingStatus
  processingResult :: "AIMatchingResult option"
  processingErrors :: "string option"
  processedAt :: "int option"

text \<open>The tables \<open>file_uploads\<close>, keyed by the record's id, and \<open>processed_records\<close>.\<close>

record database =
  fileUploads :: "string \<rightharpoonup> FileUpload"
  processedRecords :: "ProcessedRecord list"

text \<open>
  \<^verbatim>\<open>prisma.fileUpload.update({ where: { id }, data })\<close> throws when no record has the
  id.
\<close>

definition fileUpload_update ::
  "string \<Rightarrow> (FileUpload \<Rightarrow> FileUpload) \<Rightarrow> database \<Rightarrow> thrown + database" where
  "fileUpload_update fileId change db =
     (case fileUploads db fileId of
        None \<Rightarrow> Inl (Error ''Record to update not found.'')
      | Some f \<Rightarrow> Inr (db\<lparr>fileUploads := (fileUploads db)(fileId \<mapsto> change f)\<rparr>))"

subsection \<open>The collaborators\<close>

text \<open>
  How the stream of \<open>csv-parser\<close> over the stored file ends: with the parsed rows (a
  row is the list of its (column, value) pairs), with an error of the parser, or with an
  error of the read stream under it (the file cannot be opened or read).
\<close>

datatype stream_end =
  Rows "(string \<times> string) list list"
| ParserError thrown
| ReadError

text \<open>
  The collaborators of the controller are parameters: the stream over a stored file, the
  matching service \<^verbatim>\<open>AIMatchingService.processAttendanceMatching\<close>, which returns its
  result or throws, and \<^verbatim>\<open>prisma.processedRecord.create\<close>, which stores the record
  (\<open>None\<close>) or rejects.
\<close>

record services =
  csv_parser :: "string \<Rightarrow> stream_end"
  processAttendanceMatching :: "AIMatchingRequest \<Rightarrow> thrown + AIMatchingResult"
  processedRecord_create :: "ProcessedRecord \<Rightarrow> thrown option"

text \<open>\<^verbatim>\<open>Array.prototype.join\<close>\<close>

fun js_join :: "string \<Rightarrow> string list \<Rightarrow> string" where
  "js_join sep [] = []"
| "js_join sep [x] = x"
| "js_join sep (x # y # ys) = x @ sep @ js_join sep (y # ys)"

text \<open>
  \<^verbatim>\<open>readCsvFile\<close>: the handler of a \<open>data\<close> event writes the header line before the
  first row and then one line per row; the lines end in a line feed. The promise resolves
  at the \<open>end\<close> event and rejects at the \<open>error\<close> event of the parser's stream, on which
  the three listeners are registered (\<^verbatim>\<open>pipe\<close> returns its destination). An error of the
  read stream has no listener and is not passed on by \<^verbatim>\<open>pipe\<close>: the promise is then
  never settled, which is the value \<open>None\<close>.
\<close>

definition on_data :: "string \<Rightarrow> (string \<times> string) list \<Rightarrow> string" where
  "on_data csvContent row =
     (if csvContent = [] then js_join '','' (map fst row) @ [CHR 0x0A] else csvContent)
       @ js_join '','' (map snd row) @ [CHR 0x0A]"

definition readCsvFile :: "services \<Rightarrow> string \<Rightarrow> (thrown + string) option" where
  "readCsvFile srv path =
     (case csv_parser srv path of
        Rows rows \<Rightarrow> Some (Inr (foldl on_data [] rows))
      | ParserError e \<Rightarrow> Some (Inl e)
      | ReadError \<Rightarrow> None)"

text \<open>\<^verbatim>\<open>path.basename\<close>, for a path that does not end in a slash.\<close>

definition basename :: "string \<Rightarrow> string" where
  "basename path = rev (takeWhile (\<lambda>c. c \<noteq> CHR ''/'') (rev path))"

subsection \<open>\<^verbatim>\<open>processFileAsync\<close>\<close>

definition matched_record :: "string \<Rightarrow> MatchedRecord \<Rightarrow> ProcessedRecord" where
  "matched_record fileId m =
     \<lparr>fileUploadId = fileId,
      processed_originalName = matched_originalName m,
      matchedStudentId = Some (matched_studentId m),
      record_confidence = matched_confidence m,
      matchMethod = matched_method m,
      isVerified = (9 / 10 \<le> matched_confidence m)\<rparr>"

definition unmatched_record :: "string \<Rightarrow> UnmatchedRecord \<Rightarrow> ProcessedRecord" where
  "unmatched_record fileId u =
     \<lparr>fileUploadId = fileId,
      processed_originalName = record_originalName u,
      matchedStudentId = None,
      record_confidence = 0,
      matchMethod = ''none'',
      isVerified = False\<rparr>"

definition records_of :: "string \<Rightarrow> AIMatchingResult \<Rightarrow> ProcessedRecord list" where
  "records_of fileId result =
     map (matched_record fileId) (result_matches result)
       @ map (unmatched_record fileId) (result_unmatched result)"

text \<open>
  \<^verbatim>\<open>await Promise.all([...])\<close> over one \<^verbatim>\<open>prisma.processedRecord.create\<close> per matched
  and per unmatched entry. Every create is issued; those that succeed store their
  record. When some create rejects, \<^verbatim>\<open>Promise.all\<close> rejects and the call goes on in its
  \<^verbatim>\<open>catch\<close> block; the rejection it carries is taken to be the first in the order of
  the entries. \<open>logger.info\<close> and \<open>logger.error\<close> are taken not to throw.
\<close>

definition save_records ::
  "services \<Rightarrow> string \<Rightarrow> AIMatchingResult \<Rightarrow> database \<Rightarrow> thrown option \<times> database" where
  "save_records srv fileId result db =
     (case List.map_filter (processedRecord_create srv) (records_of fileId result) of
        [] \<Rightarrow> None
      | e # _ \<Rightarrow> Some e,
      db\<lparr>processedRecords := processedRecords db
           @ filter (\<lambda>r. processedRecord_create srv r = None) (records_of fileId result)\<rparr>)"

definition mark_processing :: "FileUpload \<Rightarrow> FileUpload" where
  "mark_processing f = f\<lparr>processingStatus := PROCESSING\<rparr>"

definition mark_completed :: "AIMatchingResult \<Rightarrow> int \<Rightarrow> FileUpload \<Rightarrow> FileUpload" where
  "mark_completed result now f =
     f\<lparr>processingStatus := COMPLETED, processingResult := Some result, processedAt := Some now\<rparr>"

definition mark_failed :: "thrown \<Rightarrow> FileUpload \<Rightarrow> FileUpload" where
  "mark_failed e f = f\<lparr>processingStatus := FAILED, processingErrors := Some (error_message e)\<rparr>"

text \<open>
  The \<^verbatim>\<open>catch\<close> block. If its own update throws, the promise of \<open>processFileAsync\<close>
  rejects, nobody awaits it, and the tables stay as they are.
\<close>

definition on_catch :: "string \<Rightarrow> thrown \<Rightarrow> database \<Rightarrow> database" where
  "on_catch fileId e db =
     (case fileUpload_update fileId (mark_failed e) db of Inl _ \<Rightarrow> db | Inr db' \<Rightarrow> db')"

text \<open>
  A call of \<open>processFileAsync\<close> run without interruption either returns, leaving the
  tables as given, or hangs at the read that is never settled, with the tables as they
  are then.
\<close>

datatype job_run = Returns database | Hangs database

definition tables_after :: "job_run \<Rightarrow> database" where
  "tables_after run = (case run of Returns db \<Rightarrow> db | Hangs db \<Rightarrow> db)"

text \<open>The whole function; \<open>now\<close> is \<^verbatim>\<open>new Date()\<close>.\<close>

definition processFileAsync ::
  "services \<Rightarrow> int \<Rightarrow> string \<Rightarrow> string \<Rightarrow> string option \<Rightarrow> database \<Rightarrow> job_run" where
  "processFileAsync srv now fileId path sessionId db =
     (case fileUpload_update fileId mark_processing db of
        Inl e \<Rightarrow> Returns (on_catch fileId e db)
      | Inr db1 \<Rightarrow>
          (case readCsvFile srv path of
             None \<Rightarrow> Hangs db1
           | Some (Inl e) \<Rightarrow> Returns (on_catch fileId e db1)
           | Some (Inr csv) \<Rightarrow>
               (case processAttendanceMatching srv
                       \<lparr>request_fileName = basename path, request_csvData = csv,
                        request_sessionId = sessionId\<rparr> of
                  Inl e \<Rightarrow> Returns (on_catch fileId e db1)
                | Inr result \<Rightarrow>
                    (case save_records srv fileId result db1 of
                       (Some e, db2) \<Rightarrow> Returns (on_catch fileId e db2)
                     | (None, db2) \<Rightarrow>
                         (case fileUpload_update fileId (mark_completed result now) db2 of
                            Inl e \<Rightarrow> Returns (on_catch fileId e db2)
                          | Inr db3 \<Rightarrow> Returns db3)))))"

definition status_of :: "database \<Rightarrow> string \<Rightarrow> ProcessingStatus option" where
  "status_of db fileId = map_option processingStatus (fileUploads db fileId)"

subsection \<open>Jobs that run side by side\<close>

text \<open>
  \<open>uploadFile\<close> calls \<open>processFileAsync\<close> without awaiting it, so the jobs of several
  uploads interleave at their \<^verbatim>\<open>await\<close>s. A task is one call of \<open>processFileAsync\<close>
  together with the point it has reached.
\<close>

datatype progress =
  Started
| Claimed
| Matched AIMatchingResult
| Saved AIMatchingResult
| Caught thrown

record task =
  task_fileId :: string
  task_filePath :: string
  task_sessionId :: "string option"
  task_at :: progress

text \<open>
  One step of a task, up to its next \<^verbatim>\<open>await\<close>; \<open>None\<close> when the call has ended. A
  task whose read is never settled stays where it is.
\<close>

definition task_step :: "services \<Rightarrow> int \<Rightarrow> task \<Rightarrow> database \<Rightarrow> task option \<times> database" where
  "task_step srv now t db =
     (case task_at t of
        Started \<Rightarrow>
          (case fileUpload_update (task_fileId t) mark_processing db of
             Inl e \<Rightarrow> (Some (t\<lparr>task_at := Caught e\<rparr>), db)
           | Inr db1 \<Rightarrow> (Some (t\<lparr>task_at := Claimed\<rparr>), db1))
      | Claimed \<Rightarrow>
          (case readCsvFile srv (task_filePath t) of
             None \<Rightarrow> (Some t, db)
           | Some (Inl e) \<Rightarrow> (Some (t\<lparr>task_at := Caught e\<rparr>), db)
           | Some (Inr csv) \<Rightarrow>
               (case processAttendanceMatching srv
                       \<lparr>request_fileName = basename (task_filePath t), request_csvData = csv,
                        request_sessionId = task_sessionId t\<rparr> of
                  Inl e \<Rightarrow> (Some (t\<lparr>task_at := Caught e\<rparr>), db)
                | Inr result \<Rightarrow> (Some (t\<lparr>task_at := Matched result\<rparr>), db)))
      | Matched result \<Rightarrow>
          (case save_records srv (task_fileId t) result db of
             (Some e, db2) \<Rightarrow> (Some (t\<lparr>task_at := Caught e\<rparr>), db2)
           | (None, db2) \<Rightarrow> (Some (t\<lparr>task_at := Saved result\<rparr>), db2))
      | Saved result \<Rightarrow>
          (case fileUpload_update (task_fileId t) (mark_completed result now) db of
             Inl e \<Rightarrow> (Some (t\<lparr>task_at := Caught e\<rparr>), db)
           | Inr db3 \<Rightarrow> (None, db3))
      | Caught e \<Rightarrow> (None, on_catch (task_fileId t) e db))"

text \<open>
  \<open>uploadFile\<close>, once the request has passed its checks: \<^verbatim>\<open>prisma.fileUpload.create\<close>
  stores a record in state \<open>PENDING\<close> under a new id, and the task starts.
\<close>

record upload =
  file_originalname :: string
  file_path :: string
  body_sessionId :: "string option"
  user_id :: string

definition new_FileUpload :: "upload \<Rightarrow> FileUpload" where
  "new_FileUpload u =
     \<lparr>upload_originalName = file_originalname u, filePath = file_path u,
      upload_sessionId = body_sessionId u, uploadedBy = user_id u,
      processingStatus = PENDING, processingResult = None, processingErrors = None,
      processedAt = None\<rparr>"

definition new_task :: "string \<Rightarrow> upload \<Rightarrow> task" where
  "new_task fileId u =
     \<lparr>task_fileId = fileId, task_filePath = file_path u, task_sessionId = body_sessionId u,
      task_at = Started\<rparr>"

record system =
  sys_db :: database
  sys_tasks :: "task list"

definition initial_system :: system where
  "initial_system = \<lparr>sys_db = \<lparr>fileUploads = Map.empty, processedRecords = []\<rparr>, sys_tasks = []\<rparr>"

definition continue_task :: "task \<Rightarrow> task option \<Rightarrow> task list \<Rightarrow> task list" where
  "continue_task t cont ts = (case cont of None \<Rightarrow> remove1 t ts | Some t' \<Rightarrow> t' # remove1 t ts)"

definition accept_upload :: "string \<Rightarrow> upload \<Rightarrow> system \<Rightarrow> system" where
  "accept_upload fileId u s =
     \<lparr>sys_db = (sys_db s)\<lparr>fileUploads := (fileUploads (sys_db s))(fileId \<mapsto> new_FileUpload u)\<rparr>,
      sys_tasks = new_task fileId u # sys_tasks s\<rparr>"

definition advance :: "services \<Rightarrow> int \<Rightarrow> task \<Rightarrow> system \<Rightarrow> system" where
  "advance srv now t s =
     (case task_step srv now t (sys_db s) of
        (cont, db') \<Rightarrow> \<lparr>sys_db = db', sys_tasks = continue_task t cont (sys_tasks s)\<rparr>)"

text \<open>
  The steps of the system. The id of a new record is one that no record has (the column
  is the primary key, filled by \<open>cuid()\<close>); a request that is refused, a failed
  \<open>create\<close>, the status query and the other endpoints leave both tables as they are.
\<close>

inductive step :: "services \<Rightarrow> system \<Rightarrow> system \<Rightarrow> bool" for srv :: services where
  uploadFile: "fileUploads (sys_db s) fileId = None \<Longrightarrow> step srv s (accept_upload fileId u s)"
| no_write: "step srv s s"
| run_task: "t \<in> set (sys_tasks s) \<Longrightarrow> step srv s (advance srv now t s)"

definition reachable :: "services \<Rightarrow> system \<Rightarrow> bool" where
  "reachable srv s = (step srv)\<^sup>*\<^sup>* initial_system s"

text \<open>A task run to its end without interruption, from a table to a table.\<close>

inductive task_run :: "services \<Rightarrow> int \<Rightarrow> task \<Rightarrow> database \<Rightarrow> database \<Rightarrow> bool"
  for srv :: services and now :: int where
  finished: "task_step srv now t db = (None, db') \<Longrightarrow> task_run srv now t db db'"
| continued:
    "task_step srv now t db = (Some t', db1) \<Longrightarrow> task_run srv now t' db1 db' \<Longrightarrow>
     task_run srv now t db db'"

text \<open>
  What keeps the jobs apart: every running task works on a record that is stored and not
  yet finished, and no two tasks work on the same record.
\<close>

definition unfinished :: "database \<Rightarrow> string \<Rightarrow> bool" where
  "unfinished db fileId =
     (status_of db fileId = Some PENDING \<or> status_of db fileId = Some PROCESSING)"

definition tasks_apart :: "system \<Rightarrow> bool" where
  "tasks_apart s =
     (list_all (\<lambda>t. unfinished (sys_db s) (task_fileId t)) (sys_tasks s) \<and>
      distinct (map task_fileId (sys_tasks s)))"


section \<open>The matching service of the specification\<close>

text \<open>
  The controller hands the text of the file to
  \<^verbatim>\<open>AIMatchingService.processAttendanceMatching\<close>. The class is imported from
  \<^verbatim>\<open>@/services/aiMatching\<close>, which is not among the sources; this section gives the
  service as the specification describes it.
\<close>

text \<open>
  Modelled from the spec: the answers of the matching oracle to the missing
  \<open>AIMatchingService\<close>. Section 6 gives the structured answers, a ranked list of
  identifier and confidence or the signal ``no confident match''; section 4.4 names the
  soft failures: the oracle is unavailable, it times out, or its answer cannot be parsed.
\<close>

datatype oracle_reply =
  Unavailable
| TimedOut
| UnparsableReply
| NoConfidentMatch
| Ranked "(string \<times> real) list"


text \<open>
  Modelled from the spec: the parts of the missing \<open>AIMatchingService\<close> that the
  specification names without fixing them, as parameters. \<open>eng_is_header\<close> tells whether
  the first row is a header (4.1: the header is optional); \<open>eng_name_column\<close> is the
  Column Detector's choice of the primary name column from the header and the sample
  rows, \<open>None\<close> being its hard failure (4.2); \<open>eng_normalizer\<close> is the Name Normalizer
  (4.3); \<open>eng_exact\<close> is the exact stage, the identifier of the directory entry whose
  email or identifier equals the row's; \<open>eng_oracle\<close> is the oracle asked about a
  normalized name; \<open>eng_pattern\<close> gives the candidates of the pattern stage with their
  scores; \<open>eng_threshold\<close> is the organization's threshold and \<open>eng_entry_name\<close> the
  full name of a directory entry (4.4, 6).
\<close>

record spec_engine =
  eng_is_header :: "string list \<Rightarrow> bool"
  eng_name_column :: "string list option \<Rightarrow> string list list \<Rightarrow> nat option"
  eng_normalizer :: "string \<Rightarrow> string"
  eng_exact :: "string list option \<Rightarrow> string list \<Rightarrow> string option"
  eng_oracle :: "string \<Rightarrow> oracle_reply"
  eng_pattern :: "string \<Rightarrow> (string \<times> real) list"
  eng_threshold :: real
  eng_entry_name :: "string \<Rightarrow> string"

text \<open>
  Modelled from the spec: the rows of the Tabular Parser of the missing
  \<open>AIMatchingService\<close> (4.1). The text is cut at line feeds, a carriage return before
  the line feed belongs to the line ending (mixed line endings), empty rows at the end
  are dropped, and a row is cut into its cells at the commas.
\<close>

definition spec_rows :: "string \<Rightarrow> string list list" where
  "spec_rows text =
     map (js_split '','')
       (rev (dropWhile (\<lambda>l. l = [])
          (rev (map (\<lambda>l. if l \<noteq> [] \<and> last l = CHR 0x0D then butlast l else l)
                  (js_split [CHR 0x0A] text)))))"

text \<open>
  Modelled from the spec: the padding rule of the Tabular Parser of the missing
  \<open>AIMatchingService\<close> (4.1): a row with fewer cells than the header is padded with
  empty strings and never dropped.
\<close>

definition pad_row :: "nat \<Rightarrow> string list \<Rightarrow> string list" where
  "pad_row n row = row @ replicate (n - length row) []"

text \<open>
  Modelled from the spec: the result of the Tabular Parser of the missing
  \<open>AIMatchingService\<close> (4.1, and scenario E of section 8): the header, if there is one,
  and the data rows. The parser fails, fatally for the job, when the file has no row at
  all or a header and no data row.
\<close>

definition spec_parse ::
  "spec_engine \<Rightarrow> string \<Rightarrow> thrown + (string list option \<times> string list list)" where
  "spec_parse eng text =
     (case spec_rows text of
        [] \<Rightarrow> Inl (Error ''MalformedFileError: no data'')
      | first # rest \<Rightarrow>
          if eng_is_header eng first
          then (if rest = [] then Inl (Error ''MalformedFileError: no data'')
                else Inr (Some first, map (pad_row (length first)) rest))
          else Inr (None, first # rest))"

text \<open>
  Modelled from the spec: stage 2 of the Matching Engine of the missing
  \<open>AIMatchingService\<close> (4.4): the oracle's answer gives zero or one candidate, the first
  of its ranked list; a soft failure gives none and the engine goes on to stage 3.
\<close>

definition spec_ai_candidates :: "oracle_reply \<Rightarrow> (string \<times> real) list" where
  "spec_ai_candidates reply = (case reply of Ranked (c # _) \<Rightarrow> [c] | _ \<Rightarrow> [])"

text \<open>
  Modelled from the spec: the candidates of a row that stage 1 has missed, in the missing
  \<open>AIMatchingService\<close> (4.4). The stages are tried in order and the engine stops at the
  first that yields an acceptable match: a candidate of stage 2 at or above the
  threshold ends the search, otherwise stage 3, which is always available, adds its
  candidates. A candidate is the entry's identifier, its score and the stage's name.
\<close>

definition spec_candidates :: "spec_engine \<Rightarrow> string \<Rightarrow> (string \<times> real \<times> string) list" where
  "spec_candidates eng name =
     (let ai = map (\<lambda>(i, c). (i, c, ''ai'')) (spec_ai_candidates (eng_oracle eng name))
      in if list_ex (\<lambda>(i, c, m). eng_threshold eng \<le> c) ai then ai
         else ai @ map (\<lambda>(i, c). (i, c, ''pattern'')) (eng_pattern eng name))"

text \<open>
  Modelled from the spec: the acceptance rule of the missing \<open>AIMatchingService\<close> (4.4):
  the candidate with the highest score is accepted as matched if its score is at least
  the threshold; otherwise the row is unmatched and carries the three best candidates as
  suggestions.
\<close>

definition spec_accept ::
  "spec_engine \<Rightarrow> string \<Rightarrow> (string \<times> real \<times> string) list \<Rightarrow> MatchedRecord + UnmatchedRecord" where
  "spec_accept eng raw cands =
     (case sort_key (\<lambda>(i, c, m). - c) cands of
        [] \<Rightarrow>
          Inr \<lparr>record_originalName = raw, record_reason = ''no candidate'',
               record_suggestions = []\<rparr>
      | (i, c, m) # rest \<Rightarrow>
          if eng_threshold eng \<le> c
          then Inl \<lparr>matched_originalName = raw, matched_studentId = i,
                    matched_studentName = eng_entry_name eng i, matched_confidence = c,
                    matched_method = m\<rparr>
          else Inr \<lparr>record_originalName = raw, record_reason = ''below threshold'',
                    record_suggestions =
                      take 3 (map (\<lambda>(i, c, m). (i, c)) ((i, c, m) # rest))\<rparr>)"

text \<open>
  Modelled from the spec: the match result of one row in the missing
  \<open>AIMatchingService\<close> (4.3, 4.4). A row whose normalized name is empty is unmatched; a
  hit of the exact stage is a match of confidence 1.0 and method \<open>exact\<close>; otherwise the
  acceptance rule decides among the candidates of stages 2 and 3. The pass that resolves
  two rows claiming one entry turns matches into unmatched rows and raises nothing; it is
  left out.
\<close>

definition spec_match_row ::
  "spec_engine \<Rightarrow> string list option \<Rightarrow> nat \<Rightarrow> string list \<Rightarrow> MatchedRecord + UnmatchedRecord" where
  "spec_match_row eng header col row =
     (let raw = (if col < length row then row ! col else [])
      in if eng_normalizer eng raw = []
         then Inr \<lparr>record_originalName = raw, record_reason = ''empty name'',
                   record_suggestions = []\<rparr>
         else
           (case eng_exact eng header row of
              Some i \<Rightarrow>
                Inl \<lparr>matched_originalName = raw, matched_studentId = i,
                     matched_studentName = eng_entry_name eng i, matched_confidence = 1,
                     matched_method = ''exact''\<rparr>
            | None \<Rightarrow> spec_accept eng raw (spec_candidates eng (eng_normalizer eng raw))))"

text \<open>
  Modelled from the spec: \<open>processAttendanceMatching\<close> of the missing
  \<open>AIMatchingService\<close> (2, 4.1, 4.2, 4.4, 7): parse the text, detect the name column
  from the header and up to twenty sample rows, then match every row. A parser failure
  and a missing name column are fatal and thrown to the caller; every row gives exactly
  one result, matched or unmatched, and nothing else is thrown.
\<close>

definition spec_processAttendanceMatching ::
  "spec_engine \<Rightarrow> AIMatchingRequest \<Rightarrow> thrown + AIMatchingResult" where
  "spec_processAttendanceMatching eng req =
     (case spec_parse eng (request_csvData req) of
        Inl e \<Rightarrow> Inl e
      | Inr (header, rows) \<Rightarrow>
          (case eng_name_column eng header (take 20 rows) of
             None \<Rightarrow> Inl (Error ''no name column detected'')
           | Some col \<Rightarrow>
               Inr \<lparr>result_matches =
                      List.map_filter (\<lambda>r. case r of Inl m \<Rightarrow> Some m | Inr u \<Rightarrow> None)
                        (map (spec_match_row eng header col) rows),
                    result_unmatched =
                      List.map_filter (\<lambda>r. case r of Inl m \<Rightarrow> None | Inr u \<Rightarrow> Some u)
                        (map (spec_match_row eng header col) rows)\<rparr>))"



section \<open>Concrete inputs\<close>

text \<open>A header and one data row, separated as the handler expects.\<close>

definition one_row_csv :: string where
  "one_row_csv = ''Name,Email'' @ row_separator @ ''John Smith,john.smith@university.edu''"

definition one_row_body :: request_body where
  "one_row_body = \<lparr>csvData = Some one_row_csv, students = []\<rparr>"

definition clock0 :: clock where
  "clock0 = \<lparr>now_first = 1000, now_second = 1000, now_iso = ''2025-06-26T07:00:00.000Z''\<rparr>"

text \<open>An oracle that answers in prose, with no JSON object in the text.\<close>

definition prose_oracle :: "oracle_request \<Rightarrow> oracle_outcome" where
  "prose_oracle req = Resolves [Some ''Sorry, I cannot match these names.'']"

text \<open>\<open>JSON.parse\<close> where it is never reached, or always throws.\<close>

definition JSON_parse_throws :: "string \<Rightarrow> ai_result option" where
  "JSON_parse_throws text = None"


text \<open>An oracle whose call fails: the service cannot be reached in time.\<close>

definition timeout_oracle :: "oracle_request \<Rightarrow> oracle_outcome" where
  "timeout_oracle req = Rejects ''Request timed out.''"

text \<open>An oracle that proposes a student for the row with a confidence of 0.2.\<close>

definition low_confidence_text :: string where
  \<open>low_confidence_text = ''{"matches":[{"originalName":"John Smith","studentId":"3","studentName":"Michael Brown","confidence":0.2,"method":"partial"}],"unmatched":[]}''\<close>

definition low_confidence_match :: ai_match where
  "low_confidence_match =
     \<lparr>originalName = ''John Smith'', studentId = ''3'', studentName = ''Michael Brown'',
      confidence = 2 / 10, match_method = ''partial''\<rparr>"

definition low_confidence_oracle :: "oracle_request \<Rightarrow> oracle_outcome" where
  "low_confidence_oracle req = Resolves [Some low_confidence_text]"

text \<open>\<open>JSON.parse\<close> at the one text it is given below.\<close>

definition JSON_parse_sample :: "string \<Rightarrow> ai_result option" where
  "JSON_parse_sample text =
     (if text = low_confidence_text
      then Some \<lparr>ai_matches = Some [low_confidence_match], ai_unmatched = Some []\<rparr>
      else None)"

text \<open>A quoted cell whose quotes are doubled, a header without data, and a short row.\<close>

definition doubly_quoted_cell :: string where
  "doubly_quoted_cell = [double_quote, double_quote, CHR ''a'', double_quote, double_quote]"

definition header_only_csv :: string where
  "header_only_csv = ''Name,Email,Status''"



definition clock1 :: clock where
  "clock1 = \<lparr>now_first = 2000, now_second = 2001, now_iso = ''2025-06-27T09:30:00.000Z''\<rparr>"


text \<open>
  One upload, a matching service that answers, and the states of the system while the
  job of the upload runs to its end and the same file is uploaded once more.
\<close>

definition sample_upload :: upload where
  "sample_upload =
     \<lparr>file_originalname = ''attendance.csv'', file_path = ''uploads/1-attendance.csv'',
      body_sessionId = None, user_id = ''teacher-1''\<rparr>"

definition sample_rows :: "(string \<times> string) list list" where
  "sample_rows = [[(''Name'', ''John Smith''), (''Email'', ''john.smith@university.edu'')]]"

definition sample_result :: AIMatchingResult where
  "sample_result =
     \<lparr>result_matches =
        [\<lparr>matched_originalName = ''John Smith'', matched_studentId = ''st-1'',
          matched_studentName = ''John Smith'', matched_confidence = 1,
          matched_method = ''exact''\<rparr>],
      result_unmatched = []\<rparr>"

definition answering_services :: services where
  "answering_services =
     \<lparr>csv_parser = (\<lambda>path. Rows sample_rows),
      processAttendanceMatching = (\<lambda>req. Inr sample_result),
      processedRecord_create = (\<lambda>r. None)\<rparr>"

definition sample_task :: "progress \<Rightarrow> task" where
  "sample_task p = (new_task ''f1'' sample_upload)\<lparr>task_at := p\<rparr>"

definition uploaded_system :: system where
  "uploaded_system = accept_upload ''f1'' sample_upload initial_system"

definition claimed_system :: system where
  "claimed_system = advance answering_services 10 (sample_task Started) uploaded_system"

definition matched_system :: system where
  "matched_system = advance answering_services 20 (sample_task Claimed) claimed_system"

definition saved_system :: system where
  "saved_system = advance answering_services 30 (sample_task (Matched sample_result)) matched_system"

definition completed_system :: system where
  "completed_system = advance answering_services 40 (sample_task (Saved sample_result)) saved_system"

definition reuploaded_system :: system where
  "reuploaded_system = accept_upload ''f2'' sample_upload completed_system"

definition completed_upload :: FileUpload where
  "completed_upload = mark_completed sample_result 40 (mark_processing (new_FileUpload sample_upload))"

definition one_upload_db :: database where
  "one_upload_db = \<lparr>fileUploads = [''f1'' \<mapsto> new_FileUpload sample_upload], processedRecords = []\<rparr>"


text \<open>
  An engine of the specification whose oracle times out at every call, and the
  collaborators of the controller around it, for a stored file given by its stream.
\<close>

definition timeout_engine :: spec_engine where
  "timeout_engine =
     \<lparr>eng_is_header = (\<lambda>row. True),
      eng_name_column = (\<lambda>header rows. Some 0),
      eng_normalizer = js_trim,
      eng_exact = (\<lambda>header row. None),
      eng_oracle = (\<lambda>name. TimedOut),
      eng_pattern = (\<lambda>name. if name = ''John Smith'' then [(''st-1'', 9 / 10)] else []),
      eng_threshold = 7 / 10,
      eng_entry_name = (\<lambda>i. ''John Smith'')\<rparr>"

definition spec_services :: "spec_engine \<Rightarrow> stream_end \<Rightarrow> services" where
  "spec_services eng stream =
     \<lparr>csv_parser = (\<lambda>path. stream),
      processAttendanceMatching = spec_processAttendanceMatching eng,
      processedRecord_create = (\<lambda>r. None)\<rparr>"



section \<open>Properties of the attendance endpoint\<close>

lemma parse_csv_Nil: "parse_csv [] = []"
  by (simp add: parse_csv_def js_split_def row_separator_def split_row_def clean_cell_def
      js_trim_def strip_surrounding_quotes_def some_nonempty_def)

lemma process_attendance_resolves:
  assumes "csvData body = Some csv" and "2 \<le> length (parse_csv csv)"
    and "ask (build_request (students body) (parse_csv csv)) = Resolves choices"
  shows "process_attendance ask JSON_parse clk body =
     Json200
       \<lparr>data =
          \<lparr>totalRows = length (drop 1 (parse_csv csv)),
           headers = parse_csv csv ! 0,
           matches = (case ai_matches (parse_ai_response JSON_parse (aiResponseText choices)) of
                        None \<Rightarrow> [] | Some ms \<Rightarrow> ms),
           unmatched = (case ai_unmatched (parse_ai_response JSON_parse (aiResponseText choices)) of
                        None \<Rightarrow> [] | Some us \<Rightarrow> us),
           data_confidence = overall_confidence (parse_ai_response JSON_parse (aiResponseText choices)),
           processingTime = now_first clk - now_second clk\<rparr>,
        ai_raw_response = aiResponseText choices,
        timestamp = now_iso clk\<rparr>"
proof -
  from assms(2) have "csv \<noteq> []" using parse_csv_Nil by auto
  with assms show ?thesis
    by (simp add: process_attendance_def Let_def)
qed

lemma process_attendance_rejects:
  assumes "csvData body = Some csv" and "2 \<le> length (parse_csv csv)"
    and "ask (build_request (students body) (parse_csv csv)) = Rejects msg"
  shows "process_attendance ask JSON_parse clk body = Json500 msg"
proof -
  from assms(2) have "csv \<noteq> []" using parse_csv_Nil by auto
  with assms show ?thesis
    by (simp add: process_attendance_def Let_def)
qed

lemma process_attendance_Json200D:
  assumes "process_attendance ask JSON_parse clk body = Json200 r"
  obtains csv choices where "csvData body = Some csv" and "2 \<le> length (parse_csv csv)"
    and "ask (build_request (students body) (parse_csv csv)) = Resolves choices"
  using assms
  by (auto simp: process_attendance_def Let_def
      split: option.splits if_splits oracle_outcome.splits)

lemma one_row_csv_rows:
  "parse_csv one_row_csv = [[''Name'', ''Email''], [''John Smith'', ''john.smith@university.edu'']]"
  by (simp add: one_row_csv_def parse_csv_def row_separator_def js_split_def split_row_def
      clean_cell_def js_trim_def strip_surrounding_quotes_def is_js_whitespace_def
      double_quote_def some_nonempty_def)

lemma prose_oracle_fallback:
  "parse_ai_response JSON_parse (Some ''Sorry, I cannot match these names.'') = fallback_result"
  by (simp add: parse_ai_response_def jsonMatch_def)

lemma foldl_confidence:
  "foldl (\<lambda>sum m. sum + confidence m) a ms = a + sum_list (map confidence ms)"
  by (induction ms arbitrary: a) auto

lemma overall_confidence_Some:
  "ai_matches aiResult = Some ms \<Longrightarrow>
   overall_confidence aiResult =
     (if ms = [] then NaN else Num (sum_list (map confidence ms) / real (length ms)))"
  by (simp add: overall_confidence_def js_div_def foldl_confidence)

lemma low_confidence_jsonMatch: "jsonMatch low_confidence_text = Some low_confidence_text"
  by (simp add: jsonMatch_def low_confidence_text_def)

lemma low_confidence_parsed:
  "parse_ai_response JSON_parse_sample (Some low_confidence_text) =
     \<lparr>ai_matches = Some [low_confidence_match], ai_unmatched = Some []\<rparr>"
  by (simp add: parse_ai_response_def low_confidence_jsonMatch JSON_parse_sample_def)

lemma one_row_body_valid:
  "csvData one_row_body = Some one_row_csv" "2 \<le> length (parse_csv one_row_csv)"
  by (simp_all add: one_row_body_def one_row_csv_rows)

lemma prose_response:
  "process_attendance prose_oracle JSON_parse clk one_row_body =
     Json200
       \<lparr>data = \<lparr>totalRows = 1, headers = [''Name'', ''Email''], matches = [], unmatched = [],
                 data_confidence = NaN, processingTime = now_first clk - now_second clk\<rparr>,
        ai_raw_response = Some ''Sorry, I cannot match these names.'',
        timestamp = now_iso clk\<rparr>"
  using process_attendance_resolves [where ask = prose_oracle and JSON_parse = JSON_parse
      and clk = clk, OF one_row_body_valid, of "[Some ''Sorry, I cannot match these names.'']"]
  by (simp add: prose_oracle_def prose_oracle_fallback fallback_result_def
      overall_confidence_def js_div_def one_row_csv_rows aiResponseText_def)

lemma low_confidence_response:
  "process_attendance low_confidence_oracle JSON_parse_sample clk one_row_body =
     Json200
       \<lparr>data = \<lparr>totalRows = 1, headers = [''Name'', ''Email''], matches = [low_confidence_match],
                 unmatched = [], data_confidence = Num (2 / 10),
                 processingTime = now_first clk - now_second clk\<rparr>,
        ai_raw_response = Some low_confidence_text,
        timestamp = now_iso clk\<rparr>"
  using process_attendance_resolves [where ask = low_confidence_oracle
      and JSON_parse = JSON_parse_sample
      and clk = clk, OF one_row_body_valid, of "[Some low_confidence_text]"]
  by (simp add: low_confidence_oracle_def low_confidence_parsed
      overall_confidence_def js_div_def one_row_csv_rows aiResponseText_def low_confidence_match_def)

lemma timeout_response:
  "process_attendance timeout_oracle JSON_parse clk one_row_body = Json500 ''Request timed out.''"
  using process_attendance_rejects [where ask = timeout_oracle and JSON_parse = JSON_parse
      and clk = clk, OF one_row_body_valid, of "''Request timed out.''"]
  by (simp add: timeout_oracle_def)

subsection \<open>The overall confidence\<close>

text \<open>
  Claim C10. The overall confidence of a successful response is the sum of the
  confidences of the oracle's matches divided by their number, and nothing guards the
  empty list: when the oracle's response parses to an empty \<open>matches\<close> array (the
  fallback result included), the division is \<open>0 / 0\<close> and the confidence is \<open>NaN\<close>,
  not \<open>0\<close>.
\<close>

theorem overall_confidence_unguarded:
  assumes "csvData body = Some csv" and "2 \<le> length (parse_csv csv)"
    and "ask (build_request (students body) (parse_csv csv)) = Resolves choices"
    and "ai_matches (parse_ai_response JSON_parse (aiResponseText choices)) = Some ms"
  shows "\<exists>r. process_attendance ask JSON_parse clk body = Json200 r \<and>
             matches (data r) = ms \<and>
             data_confidence (data r) =
               (if ms = [] then js_div 0 0 else Num (sum_list (map confidence ms) / real (length ms))) \<and>
             (ms = [] \<longrightarrow> data_confidence (data r) = NaN \<and> data_confidence (data r) \<noteq> Num 0)"
  using assms(4) overall_confidence_Some [OF assms(4)]
    process_attendance_resolves [where ask = ask, OF assms(1-3)]
  by (simp add: js_div_def)

theorem overall_confidence_unguarded_witness:
  "\<exists>r. process_attendance prose_oracle JSON_parse_throws clock0 one_row_body = Json200 r \<and>
       matches (data r) = [] \<and> data_confidence (data r) = NaN \<and> data_confidence (data r) \<noteq> Num 0"
proof -
  have a: "csvData one_row_body = Some one_row_csv"
    by (simp add: one_row_body_def)
  have b: "2 \<le> length (parse_csv one_row_csv)"
    by (simp add: one_row_csv_rows)
  have c: "prose_oracle (build_request (students one_row_body) (parse_csv one_row_csv))
             = Resolves [Some ''Sorry, I cannot match these names.'']"
    by (simp add: prose_oracle_def)
  have d: "ai_matches (parse_ai_response JSON_parse_throws
             (aiResponseText [Some ''Sorry, I cannot match these names.''])) = Some []"
    by (simp add: aiResponseText_def prose_oracle_fallback fallback_result_def)
  from overall_confidence_unguarded [where ask = prose_oracle, OF a b c d] show ?thesis
    by auto
qed

subsection \<open>Results and rows\<close>





subsection \<open>Exact matches\<close>

text \<open>
  Claim C3, as stated: a row whose email equals that of a directory entry is reported as
  matched whether or not the oracle is available. The data row of the file below carries
  the email of the first student of the directory the handler uses; with an oracle that
  answers in prose no row is reported as matched, and with an oracle that times out the
  request fails and reports nothing.
\<close>

theorem exact_match_counterexample:
  "parse_csv one_row_csv ! 1 ! 1 = student_email (sampleStudents_default ! 0) \<and>
   prompt_students (build_request (students one_row_body) (parse_csv one_row_csv))
     = sampleStudents_default \<and>
   reported_matches (process_attendance prose_oracle JSON_parse_throws clock0 one_row_body)
     = Some [] \<and>
   reported_matches (process_attendance timeout_oracle JSON_parse_throws clock0 one_row_body)
     = None"
proof -
  have "prompt_students (build_request (students one_row_body) (parse_csv one_row_csv))
          = sampleStudents_default"
    by (simp add: build_request_def one_row_body_def)
  then show ?thesis
    by (simp add: prose_response timeout_response reported_matches_def response_data_def
        one_row_csv_rows sampleStudents_default_def)
qed

text \<open>
  Claim C3, amended. The handler has no exact stage of its own: the rows it reports as
  matched are the entries of the oracle's parsed \<open>matches\<close> array, whatever the cells of
  the rows are, and none when the oracle call fails. A row with an exact email match is
  reported as matched with confidence 1.0 and method \<open>exact\<close> only when the oracle
  answers so.
\<close>

theorem matches_only_from_oracle:
  assumes "csvData body = Some csv" and "2 \<le> length (parse_csv csv)"
  shows "reported_matches (process_attendance ask JSON_parse clk body) =
     (case ask (build_request (students body) (parse_csv csv)) of
        Rejects msg \<Rightarrow> None
      | Resolves choices \<Rightarrow>
          Some (case ai_matches (parse_ai_response JSON_parse (aiResponseText choices)) of
                  None \<Rightarrow> [] | Some ms \<Rightarrow> ms))"
proof (cases "ask (build_request (students body) (parse_csv csv))")
  case (Rejects msg)
  from process_attendance_rejects [where ask = ask, OF assms this] Rejects
  show ?thesis by (simp add: reported_matches_def response_data_def)
next
  case (Resolves choices)
  from process_attendance_resolves [where ask = ask, OF assms this] Resolves
  show ?thesis by (simp add: reported_matches_def response_data_def)
qed

theorem matches_only_from_oracle_witness:
  "reported_matches (process_attendance low_confidence_oracle JSON_parse_sample clock0 one_row_body)
     = Some [low_confidence_match]"
  using matches_only_from_oracle [where ask = low_confidence_oracle
      and JSON_parse = JSON_parse_sample and clk = clock0, OF one_row_body_valid]
  by (simp add: low_confidence_oracle_def low_confidence_parsed aiResponseText_def)

subsection \<open>The confidence threshold\<close>

text \<open>
  Claim C4, as stated: every row reported as matched has a confidence of at least the
  configured threshold, 0.7 by default. The handler reports a match the oracle gave a
  confidence of 0.2.
\<close>

theorem confidence_threshold_counterexample:
  "match_confidences (process_attendance low_confidence_oracle JSON_parse_sample clock0 one_row_body)
     = Some [2 / 10] \<and>
   (2 / 10 :: real) < AI_CONFIDENCE_THRESHOLD_default"
  by (simp add: low_confidence_response match_confidences_def reported_matches_def
      response_data_def low_confidence_match_def AI_CONFIDENCE_THRESHOLD_default_def)

text \<open>
  Claim C4, amended. Every row reported as matched carries the confidence the oracle
  gave it: the confidences reported are those of the oracle's parsed matches, in order,
  none dropped and none compared with a threshold.
\<close>

theorem confidences_unfiltered:
  assumes "csvData body = Some csv" and "2 \<le> length (parse_csv csv)"
    and "ask (build_request (students body) (parse_csv csv)) = Resolves choices"
    and "ai_matches (parse_ai_response JSON_parse (aiResponseText choices)) = Some ms"
  shows "match_confidences (process_attendance ask JSON_parse clk body) = Some (map confidence ms)"
  using process_attendance_resolves [where ask = ask, OF assms(1-3)] assms(4)
  by (simp add: match_confidences_def reported_matches_def response_data_def)

theorem confidences_unfiltered_witness:
  "match_confidences (process_attendance low_confidence_oracle JSON_parse_sample clock1 one_row_body)
     = Some [2 / 10]"
  using confidences_unfiltered [where ask = low_confidence_oracle
      and JSON_parse = JSON_parse_sample and clk = clock1, OF one_row_body_valid,
      of "[Some low_confidence_text]" "[low_confidence_match]"]
  by (simp add: low_confidence_oracle_def low_confidence_parsed aiResponseText_def
      low_confidence_match_def)


subsection \<open>Cleaning a cell\<close>

lemma dropWhile_eq_self_iff: "dropWhile P xs = xs \<longleftrightarrow> xs = [] \<or> \<not> P (hd xs)"
proof (cases xs)
  case Nil
  then show ?thesis by simp
next
  case (Cons x xs')
  show ?thesis
  proof (cases "P x")
    case True
    have "length (dropWhile P xs') \<le> length xs'" by (rule length_dropWhile_le)
    then have "dropWhile P xs' \<noteq> x # xs'" by auto
    with True Cons show ?thesis by simp
  next
    case False
    with Cons show ?thesis by simp
  qed
qed

lemma dropWhile_length_eq: "length (dropWhile P xs) = length xs \<Longrightarrow> dropWhile P xs = xs"
proof -
  assume a: "length (dropWhile P xs) = length xs"
  have "length (takeWhile P xs) + length (dropWhile P xs) = length xs"
    by (metis length_append takeWhile_dropWhile_id)
  with a have "takeWhile P xs = []" by simp
  then show ?thesis by (metis append_Nil takeWhile_dropWhile_id)
qed

lemma length_js_trim_le_front: "length (js_trim s) \<le> length (dropWhile is_js_whitespace s)"
  unfolding js_trim_def
  using length_dropWhile_le [of is_js_whitespace "rev (dropWhile is_js_whitespace s)"]
  by simp

lemma length_js_trim_le: "length (js_trim s) \<le> length s"
  using length_js_trim_le_front [of s] length_dropWhile_le [of is_js_whitespace s]
  by simp

lemma js_trim_length_eq:
  assumes "length (js_trim s) = length s"
  shows "js_trim s = s"
proof -
  have "length (dropWhile is_js_whitespace s) = length s"
    using assms length_js_trim_le_front [of s] length_dropWhile_le [of is_js_whitespace s]
    by simp
  then have front: "dropWhile is_js_whitespace s = s" by (rule dropWhile_length_eq)
  have "length (dropWhile is_js_whitespace (rev s)) = length (rev s)"
    using assms front by (simp add: js_trim_def)
  then have "dropWhile is_js_whitespace (rev s) = rev s" by (rule dropWhile_length_eq)
  with front show ?thesis by (simp add: js_trim_def)
qed

lemma js_trim_eq_self_iff:
  "js_trim s = s \<longleftrightarrow> s = [] \<or> (\<not> is_js_whitespace (hd s) \<and> \<not> is_js_whitespace (last s))"
proof (cases "s = []")
  case True
  then show ?thesis by (simp add: js_trim_def)
next
  case False
  show ?thesis
  proof
    assume fp: "js_trim s = s"
    have "length (dropWhile is_js_whitespace s) = length s"
      using fp length_js_trim_le_front [of s] length_dropWhile_le [of is_js_whitespace s]
      by simp
    then have front: "dropWhile is_js_whitespace s = s" by (rule dropWhile_length_eq)
    with fp have "rev (dropWhile is_js_whitespace (rev s)) = s" by (simp add: js_trim_def)
    then have "dropWhile is_js_whitespace (rev s) = rev s" by (metis rev_rev_ident)
    then have "\<not> is_js_whitespace (hd (rev s))" using False by (simp add: dropWhile_eq_self_iff)
    moreover have "\<not> is_js_whitespace (hd s)" using front False by (simp add: dropWhile_eq_self_iff)
    ultimately show "s = [] \<or> (\<not> is_js_whitespace (hd s) \<and> \<not> is_js_whitespace (last s))"
      using False by (simp add: hd_rev)
  next
    assume "s = [] \<or> (\<not> is_js_whitespace (hd s) \<and> \<not> is_js_whitespace (last s))"
    with False have a: "\<not> is_js_whitespace (hd s)" "\<not> is_js_whitespace (last s)" by simp_all
    have "dropWhile is_js_whitespace s = s" using a by (simp add: dropWhile_eq_self_iff)
    moreover have "dropWhile is_js_whitespace (rev s) = rev s"
      using a False by (simp add: dropWhile_eq_self_iff hd_rev)
    ultimately show "js_trim s = s" by (simp add: js_trim_def)
  qed
qed

lemma length_strip_le: "length (strip_surrounding_quotes s) \<le> length s"
  by (cases s) (auto simp: strip_surrounding_quotes_def Let_def)

lemma strip_eq_self_iff:
  "strip_surrounding_quotes s = s \<longleftrightarrow> s = [] \<or> (hd s \<noteq> double_quote \<and> last s \<noteq> double_quote)"
proof (cases s)
  case Nil
  then show ?thesis by (simp add: strip_surrounding_quotes_def)
next
  case (Cons c cs)
  show ?thesis
  proof (cases "c = double_quote")
    case True
    have "length (strip_surrounding_quotes s) \<le> length cs"
      using Cons True by (auto simp: strip_surrounding_quotes_def Let_def)
    then have "strip_surrounding_quotes s \<noteq> s" using Cons by auto
    with Cons True show ?thesis by simp
  next
    case False
    show ?thesis
    proof (cases "last s = double_quote")
      case True
      then have "strip_surrounding_quotes s = butlast s"
        using Cons False by (simp add: strip_surrounding_quotes_def Let_def)
      then have "length (strip_surrounding_quotes s) < length s" using Cons by simp
      then have "strip_surrounding_quotes s \<noteq> s" by auto
      with True show ?thesis using Cons by simp
    next
      case l: False
      then have "strip_surrounding_quotes s = s"
        using Cons False by (simp add: strip_surrounding_quotes_def Let_def)
      with l False Cons show ?thesis by simp
    qed
  qed
qed

lemma clean_cell_eq_self_iff:
  "clean_cell s = s \<longleftrightarrow> s = [] \<or> (\<not> is_boundary_char (hd s) \<and> \<not> is_boundary_char (last s))"
proof -
  have "clean_cell s = s \<longleftrightarrow> js_trim s = s \<and> strip_surrounding_quotes s = s"
  proof
    assume fp: "clean_cell s = s"
    have "length s = length (strip_surrounding_quotes (js_trim s))"
      using fp by (simp add: clean_cell_def)
    also have "\<dots> \<le> length (js_trim s)" by (rule length_strip_le)
    finally have "length (js_trim s) = length s" using length_js_trim_le [of s] by simp
    then have "js_trim s = s" by (rule js_trim_length_eq)
    with fp show "js_trim s = s \<and> strip_surrounding_quotes s = s" by (simp add: clean_cell_def)
  next
    assume "js_trim s = s \<and> strip_surrounding_quotes s = s"
    then show "clean_cell s = s" by (simp add: clean_cell_def)
  qed
  then show ?thesis
    by (auto simp: js_trim_eq_self_iff strip_eq_self_iff is_boundary_char_def)
qed

lemma doubly_quoted_cell_cleaned:
  "clean_cell doubly_quoted_cell = [double_quote, CHR ''a'', double_quote]"
  "clean_cell [double_quote, CHR ''a'', double_quote] = ''a''"
  by (simp_all add: doubly_quoted_cell_def clean_cell_def js_trim_def strip_surrounding_quotes_def
      is_js_whitespace_def double_quote_def)

text \<open>
  Claim C5, as stated: cleaning a cell twice gives what cleaning it once gives. A cell
  whose quotes are doubled loses one pair of quotes at each application.
\<close>

theorem clean_cell_idempotent_counterexample:
  "clean_cell doubly_quoted_cell = [double_quote, CHR ''a'', double_quote] \<and>
   clean_cell (clean_cell doubly_quoted_cell) = ''a'' \<and>
   clean_cell (clean_cell doubly_quoted_cell) \<noteq> clean_cell doubly_quoted_cell"
  by (simp add: doubly_quoted_cell_cleaned)

text \<open>
  Claim C5, amended. The cleaning of a cell (\<open>trim\<close>, then the removal of one leading
  and one trailing double quote) is a total function: it raises for no string. It is
  idempotent at exactly the cells whose cleaned form is empty or neither begins nor ends
  with white space or a double quote.
\<close>

theorem clean_cell_idempotent_iff:
  "clean_cell (clean_cell x) = clean_cell x \<longleftrightarrow>
     clean_cell x = [] \<or>
     (\<not> is_boundary_char (hd (clean_cell x)) \<and> \<not> is_boundary_char (last (clean_cell x)))"
  by (rule clean_cell_eq_self_iff)

theorem clean_cell_idempotent_iff_witness:
  "clean_cell '' Garcia, Robert '' = ''Garcia, Robert'' \<and>
   clean_cell (clean_cell '' Garcia, Robert '') = clean_cell '' Garcia, Robert ''"
proof -
  have c: "clean_cell '' Garcia, Robert '' = ''Garcia, Robert''"
    by (simp add: clean_cell_def js_trim_def strip_surrounding_quotes_def
        is_js_whitespace_def double_quote_def)
  have "\<not> is_boundary_char (hd ''Garcia, Robert'') \<and> \<not> is_boundary_char (last ''Garcia, Robert'')"
    by (simp add: is_boundary_char_def is_js_whitespace_def double_quote_def)
  with clean_cell_idempotent_iff [of "'' Garcia, Robert ''"] c show ?thesis by simp
qed


subsection \<open>Rows and cells\<close>

lemma split_from_single_length: "length (split_from [d] acc s) = Suc (count_list s d)"
  by (induction s arbitrary: acc) auto

lemma length_split_row: "length (split_row line) = Suc (count_list line (CHR '',''))"
  by (simp add: split_row_def js_split_def split_from_single_length)




















subsection \<open>Two runs on one file\<close>





section \<open>Properties of the background job\<close>

subsection \<open>One call of \<^verbatim>\<open>processFileAsync\<close>\<close>

lemma fileUpload_update_Some:
  "fileUploads db fileId = Some f \<Longrightarrow>
   fileUpload_update fileId change db = Inr (db\<lparr>fileUploads := (fileUploads db)(fileId \<mapsto> change f)\<rparr>)"
  by (simp add: fileUpload_update_def)

lemma fileUpload_update_other:
  "fileUpload_update fileId change db = Inr db' \<Longrightarrow> other \<noteq> fileId \<Longrightarrow>
   fileUploads db' other = fileUploads db other"
  by (auto simp: fileUpload_update_def split: option.splits)

lemma on_catch_Some:
  "fileUploads db fileId = Some f \<Longrightarrow>
   on_catch fileId e db = db\<lparr>fileUploads := (fileUploads db)(fileId \<mapsto> mark_failed e f)\<rparr>"
  by (simp add: on_catch_def fileUpload_update_def)

lemma on_catch_other:
  "other \<noteq> fileId \<Longrightarrow> fileUploads (on_catch fileId e db) other = fileUploads db other"
  by (auto simp: on_catch_def fileUpload_update_def split: option.splits)

lemma save_records_fileUploads:
  "save_records srv fileId result db = (r, db') \<Longrightarrow> fileUploads db' = fileUploads db"
  by (auto simp: save_records_def)

lemma save_records_succeed:
  assumes "\<forall>r. processedRecord_create srv r = None"
  shows "save_records srv fileId result db =
           (None, db\<lparr>processedRecords := processedRecords db @ records_of fileId result\<rparr>)"
  using assms by (simp add: save_records_def List.map_filter_def)

lemma status_mark [simp]:
  "processingStatus (mark_failed e f) = FAILED"
  "processingStatus (mark_completed result now f) = COMPLETED"
  "processingStatus (mark_processing f) = PROCESSING"
  by (simp_all add: mark_failed_def mark_completed_def mark_processing_def)

lemma readCsvFile_Rows:
  "csv_parser srv path = Rows rows \<Longrightarrow> readCsvFile srv path = Some (Inr (foldl on_data [] rows))"
  by (simp add: readCsvFile_def)

lemma processFileAsync_service_throws:
  assumes "fileUploads db fileId = Some f"
    and "readCsvFile srv path = Some (Inr csv)"
    and "processAttendanceMatching srv
           \<lparr>request_fileName = basename path, request_csvData = csv,
            request_sessionId = sessionId\<rparr> = Inl e"
  shows "processFileAsync srv now fileId path sessionId db =
           Returns (db\<lparr>fileUploads := (fileUploads db)(fileId \<mapsto> mark_failed e (mark_processing f))\<rparr>)"
  using assms
  by (simp add: processFileAsync_def fileUpload_update_Some on_catch_Some)


lemma processFileAsync_create_rejects:
  assumes "fileUploads db fileId = Some f"
    and "readCsvFile srv path = Some (Inr csv)"
    and "processAttendanceMatching srv
           \<lparr>request_fileName = basename path, request_csvData = csv,
            request_sessionId = sessionId\<rparr> = Inr result"
    and "save_records srv fileId result
           (db\<lparr>fileUploads := (fileUploads db)(fileId \<mapsto> mark_processing f)\<rparr>) = (Some e, db2)"
  shows "status_of (tables_after (processFileAsync srv now fileId path sessionId db)) fileId
           = Some FAILED"
proof -
  have "fileUploads db2 fileId = Some (mark_processing f)"
    using save_records_fileUploads [OF assms(4)] by simp
  then show ?thesis
    using assms
    by (simp add: processFileAsync_def fileUpload_update_Some on_catch_Some tables_after_def
        status_of_def)
qed

lemma processFileAsync_read_hangs:
  assumes "fileUploads db fileId = Some f" and "csv_parser srv path = ReadError"
  shows "processFileAsync srv now fileId path sessionId db =
           Hangs (db\<lparr>fileUploads := (fileUploads db)(fileId \<mapsto> mark_processing f)\<rparr>)"
  using assms
  by (simp add: processFileAsync_def fileUpload_update_Some readCsvFile_def)

lemma processFileAsync_other:
  "other \<noteq> fileId \<Longrightarrow>
   fileUploads (tables_after (processFileAsync srv now fileId path sessionId db)) other
     = fileUploads db other"
  by (auto simp: processFileAsync_def tables_after_def on_catch_other fileUpload_update_def
      save_records_def split: option.splits sum.splits prod.splits)

subsection \<open>A task works on its own record\<close>

lemma task_step_other:
  "task_step srv now t db = (cont, db') \<Longrightarrow> other \<noteq> task_fileId t \<Longrightarrow>
   fileUploads db' other = fileUploads db other"
  by (auto simp: task_step_def on_catch_other fileUpload_update_def save_records_def
      split: progress.splits sum.splits option.splits prod.splits list.splits)

lemma task_step_fileId:
  "task_step srv now t db = (Some t', db') \<Longrightarrow> task_fileId t' = task_fileId t"
  by (auto simp: task_step_def save_records_def
      split: progress.splits sum.splits option.splits prod.splits list.splits)

lemma task_step_unfinished:
  "task_step srv now t db = (Some t', db') \<Longrightarrow> unfinished db (task_fileId t) \<Longrightarrow>
   unfinished db' (task_fileId t)"
  by (auto simp: task_step_def unfinished_def status_of_def fileUpload_update_def save_records_def
      split: progress.splits sum.splits option.splits prod.splits list.splits)

lemma unfinished_cong:
  "fileUploads db' fileId = fileUploads db fileId \<Longrightarrow> unfinished db fileId \<Longrightarrow>
   unfinished db' fileId"
  by (simp add: unfinished_def status_of_def)

lemma tasks_apart_initial: "tasks_apart initial_system"
  by (simp add: tasks_apart_def initial_system_def)


lemma remove1_map_distinct:
  "distinct (map f ts) \<Longrightarrow> distinct (map f (remove1 t ts))"
proof (induction ts)
  case Nil
  then show ?case by simp
next
  case (Cons a ts)
  have "set (remove1 t ts) \<subseteq> set ts" by (rule set_remove1_subset)
  with Cons show ?case by auto
qed

lemma remove1_map_other:
  "distinct (map f ts) \<Longrightarrow> t \<in> set ts \<Longrightarrow> u \<in> set (remove1 t ts) \<Longrightarrow> f u \<noteq> f t"
proof (induction ts)
  case Nil
  then show ?case by simp
next
  case (Cons a ts)
  show ?case
  proof (cases "t = a")
    case True
    with Cons.prems have u: "u \<in> set ts" and fa: "f a \<notin> f ` set ts" by auto
    from u have "f u \<in> f ` set ts" by (rule imageI)
    with fa have "f u \<noteq> f a" by metis
    with True show ?thesis by simp
  next
    case False
    with Cons.prems have t: "t \<in> set ts" and d: "distinct (map f ts)" and fa: "f a \<notin> f ` set ts"
      by auto
    from Cons.prems(3) False have "u = a \<or> u \<in> set (remove1 t ts)" by auto
    then show ?thesis
    proof
      assume "u = a"
      with fa t show ?thesis by auto
    next
      assume "u \<in> set (remove1 t ts)"
      with Cons.IH d t show ?thesis by blast
    qed
  qed
qed

lemma tasks_apart_upload:
  assumes "tasks_apart s" and "fileUploads (sys_db s) fileId = None"
  shows "tasks_apart (accept_upload fileId u s)"
proof -
  have unf: "\<forall>t \<in> set (sys_tasks s). unfinished (sys_db s) (task_fileId t)"
    and dist: "distinct (map task_fileId (sys_tasks s))"
    using assms(1) by (simp_all add: tasks_apart_def list_all_iff)
  have fresh: "\<forall>t \<in> set (sys_tasks s). task_fileId t \<noteq> fileId"
  proof
    fix t assume "t \<in> set (sys_tasks s)"
    with unf have "unfinished (sys_db s) (task_fileId t)" by blast
    with assms(2) show "task_fileId t \<noteq> fileId"
      by (auto simp: unfinished_def status_of_def)
  qed
  have db: "fileUploads (sys_db (accept_upload fileId u s)) =
              (fileUploads (sys_db s))(fileId \<mapsto> new_FileUpload u)"
    and ts: "sys_tasks (accept_upload fileId u s) = new_task fileId u # sys_tasks s"
    by (simp_all add: accept_upload_def)
  have new: "unfinished (sys_db (accept_upload fileId u s)) fileId"
    by (simp add: unfinished_def status_of_def db new_FileUpload_def)
  have old: "\<forall>t \<in> set (sys_tasks s). unfinished (sys_db (accept_upload fileId u s)) (task_fileId t)"
  proof
    fix t assume t: "t \<in> set (sys_tasks s)"
    with fresh have "task_fileId t \<noteq> fileId" by blast
    then have "fileUploads (sys_db (accept_upload fileId u s)) (task_fileId t)
                 = fileUploads (sys_db s) (task_fileId t)"
      by (simp add: db)
    moreover have "unfinished (sys_db s) (task_fileId t)" using unf t by blast
    ultimately show "unfinished (sys_db (accept_upload fileId u s)) (task_fileId t)"
      by (rule unfinished_cong)
  qed
  have "task_fileId (new_task fileId u) = fileId" by (simp add: new_task_def)
  with new old dist fresh show ?thesis
    by (auto simp: tasks_apart_def list_all_iff ts)
qed

lemma tasks_apart_advance:
  assumes "tasks_apart s" and "t \<in> set (sys_tasks s)"
  shows "tasks_apart (advance srv now t s)"
proof -
  obtain cont db' where ts: "task_step srv now t (sys_db s) = (cont, db')"
    by (cases "task_step srv now t (sys_db s)")
  have s': "advance srv now t s = \<lparr>sys_db = db', sys_tasks = continue_task t cont (sys_tasks s)\<rparr>"
    using ts by (simp add: advance_def)
  have dist: "distinct (map task_fileId (sys_tasks s))"
    and unf: "\<forall>u \<in> set (sys_tasks s). unfinished (sys_db s) (task_fileId u)"
    using assms(1) by (simp_all add: tasks_apart_def list_all_iff)
  have others: "\<forall>u \<in> set (remove1 t (sys_tasks s)). task_fileId u \<noteq> task_fileId t"
    using remove1_map_other [OF dist assms(2)] by blast
  have rest_unf: "\<forall>u \<in> set (remove1 t (sys_tasks s)). unfinished db' (task_fileId u)"
  proof
    fix u assume u: "u \<in> set (remove1 t (sys_tasks s))"
    then have "task_fileId u \<noteq> task_fileId t" using others by blast
    then have "fileUploads db' (task_fileId u) = fileUploads (sys_db s) (task_fileId u)"
      using task_step_other [OF ts] by blast
    moreover have "u \<in> set (sys_tasks s)" using u by (meson notin_set_remove1)
    then have "unfinished (sys_db s) (task_fileId u)" using unf by blast
    ultimately show "unfinished db' (task_fileId u)" by (rule unfinished_cong)
  qed
  have rest_dist: "distinct (map task_fileId (remove1 t (sys_tasks s)))"
    using dist by (rule remove1_map_distinct)
  show ?thesis
  proof (cases cont)
    case None
    with rest_unf rest_dist show ?thesis
      by (simp add: s' tasks_apart_def continue_task_def list_all_iff)
  next
    case (Some t')
    have same: "task_fileId t' = task_fileId t" using ts Some task_step_fileId by blast
    have "unfinished db' (task_fileId t)"
      using ts Some task_step_unfinished unf assms(2) by blast
    with same have head: "unfinished db' (task_fileId t')" by simp
    have "task_fileId t' \<notin> task_fileId ` set (remove1 t (sys_tasks s))"
      using others same by auto
    with head rest_unf rest_dist show ?thesis
      by (simp add: s' Some tasks_apart_def continue_task_def list_all_iff)
  qed
qed

lemma tasks_apart_step:
  assumes "step srv s s'" and "tasks_apart s"
  shows "tasks_apart s'"
  using assms(1)
proof cases
  case (uploadFile fileId u)
  with assms(2) show ?thesis by (simp add: tasks_apart_upload)
next
  case no_write
  with assms(2) show ?thesis by simp
next
  case (run_task t now)
  with assms(2) show ?thesis by (simp add: tasks_apart_advance)
qed

lemma tasks_apart_steps:
  "(step srv)\<^sup>*\<^sup>* s s' \<Longrightarrow> tasks_apart s \<Longrightarrow> tasks_apart s'"
  by (induction rule: rtranclp_induct) (auto intro: tasks_apart_step)

lemma reachable_tasks_apart: "reachable srv s \<Longrightarrow> tasks_apart s"
  using tasks_apart_steps [OF _ tasks_apart_initial] by (simp add: reachable_def)

lemma completed_not_unfinished:
  "fileUploads db fileId = Some f \<Longrightarrow> processingStatus f = COMPLETED \<Longrightarrow> \<not> unfinished db fileId"
  by (simp add: unfinished_def status_of_def)

lemma step_keeps_completed:
  assumes "step srv s s'" and "tasks_apart s"
    and "fileUploads (sys_db s) fileId = Some f" and "processingStatus f = COMPLETED"
  shows "fileUploads (sys_db s') fileId = Some f"
  using assms(1)
proof cases
  case (uploadFile newId u)
  with assms(3) have "newId \<noteq> fileId" by auto
  with uploadFile assms(3) show ?thesis by (simp add: accept_upload_def)
next
  case no_write
  with assms(3) show ?thesis by simp
next
  case (run_task t now)
  obtain cont db' where ts: "task_step srv now t (sys_db s) = (cont, db')"
    by (cases "task_step srv now t (sys_db s)")
  have "unfinished (sys_db s) (task_fileId t)"
    using assms(2) run_task(2) by (simp add: tasks_apart_def list_all_iff)
  with completed_not_unfinished [OF assms(3,4)] have "fileId \<noteq> task_fileId t" by auto
  with task_step_other [OF ts] have "fileUploads db' fileId = fileUploads (sys_db s) fileId"
    by blast
  with run_task(1) ts assms(3) show ?thesis by (simp add: advance_def)
qed

lemma steps_keep_completed:
  assumes "(step srv)\<^sup>*\<^sup>* s s'" and "tasks_apart s"
    and "fileUploads (sys_db s) fileId = Some f" and "processingStatus f = COMPLETED"
  shows "fileUploads (sys_db s') fileId = Some f \<and> tasks_apart s'"
  using assms
proof (induction rule: rtranclp_induct)
  case base
  then show ?case by simp
next
  case (step y z)
  then have "fileUploads (sys_db y) fileId = Some f" and "tasks_apart y" by simp_all
  with step.hyps(2) step.prems(3) show ?case
    by (simp add: step_keeps_completed tasks_apart_step)
qed

subsection \<open>A call run without interruption\<close>

text \<open>
  The steps of a task, taken one after the other with no other task in between, end with
  the tables that \<open>processFileAsync\<close> returns, and they do not end when it hangs.
\<close>

lemma task_run_deterministic:
  "task_run srv now t db db' \<Longrightarrow> task_run srv now t db db'' \<Longrightarrow> db' = db''"
proof (induction arbitrary: db'' rule: task_run.induct)
  case (finished t db db')
  from finished.prems finished.hyps show ?case
    by (cases rule: task_run.cases) auto
next
  case (continued t db t' db1 db')
  from continued.prems continued.hyps(1) have "task_run srv now t' db1 db''"
    by (cases rule: task_run.cases) auto
  then show ?case by (rule continued.IH)
qed

lemma task_run_stuck:
  "task_run srv now t db db' \<Longrightarrow> task_step srv now t db = (Some t, db) \<Longrightarrow> False"
  by (induction rule: task_run.induct) auto

lemma processFileAsync_task_run:
  assumes "processFileAsync srv now fileId path sessionId db = Returns db'"
  shows "task_run srv now
           \<lparr>task_fileId = fileId, task_filePath = path, task_sessionId = sessionId,
            task_at = Started\<rparr> db db'"
proof -
  let ?t = "\<lambda>p. \<lparr>task_fileId = fileId, task_filePath = path, task_sessionId = sessionId,
                  task_at = p\<rparr>"
  have caught: "task_run srv now (?t (Caught e)) d (on_catch fileId e d)" for e d
    by (rule task_run.finished) (simp add: task_step_def)
  show ?thesis
  proof (cases "fileUpload_update fileId mark_processing db")
    case (Inl e)
    have "task_step srv now (?t Started) db = (Some (?t (Caught e)), db)"
      using Inl by (simp add: task_step_def)
    from task_run.continued [OF this caught] show ?thesis
      using Inl assms by (simp add: processFileAsync_def)
  next
    case (Inr db1)
    have s1: "task_step srv now (?t Started) db = (Some (?t Claimed), db1)"
      using Inr by (simp add: task_step_def)
    have "task_run srv now (?t Claimed) db1 db'"
    proof (cases "readCsvFile srv path")
      case None
      with Inr assms show ?thesis by (simp add: processFileAsync_def)
    next
      case (Some read)
      show ?thesis
      proof (cases read)
        case (Inl e)
        have "task_step srv now (?t Claimed) db1 = (Some (?t (Caught e)), db1)"
          using Some Inl by (simp add: task_step_def)
        from task_run.continued [OF this caught] show ?thesis
          using Inr Some Inl assms by (simp add: processFileAsync_def)
      next
        case csv: (Inr csv)
        show ?thesis
        proof (cases "processAttendanceMatching srv
                        \<lparr>request_fileName = basename path, request_csvData = csv,
                         request_sessionId = sessionId\<rparr>")
          case (Inl e)
          have "task_step srv now (?t Claimed) db1 = (Some (?t (Caught e)), db1)"
            using Some csv Inl by (simp add: task_step_def)
          from task_run.continued [OF this caught] show ?thesis
            using Inr Some csv Inl assms by (simp add: processFileAsync_def)
        next
          case res: (Inr result)
          have s2: "task_step srv now (?t Claimed) db1 = (Some (?t (Matched result)), db1)"
            using Some csv res by (simp add: task_step_def)
          obtain x db2 where sv: "save_records srv fileId result db1 = (x, db2)"
            by (cases "save_records srv fileId result db1")
          have "task_run srv now (?t (Matched result)) db1 db'"
          proof (cases x)
            case (Some e)
            have "task_step srv now (?t (Matched result)) db1 = (Some (?t (Caught e)), db2)"
              using sv Some by (simp add: task_step_def)
            from task_run.continued [OF this caught] show ?thesis
              using Inr \<open>readCsvFile srv path = Some read\<close> csv res sv Some assms
              by (simp add: processFileAsync_def)
          next
            case None
            have s3: "task_step srv now (?t (Matched result)) db1 = (Some (?t (Saved result)), db2)"
              using sv None by (simp add: task_step_def)
            have "task_run srv now (?t (Saved result)) db2 db'"
            proof (cases "fileUpload_update fileId (mark_completed result now) db2")
              case (Inl e)
              have "task_step srv now (?t (Saved result)) db2 = (Some (?t (Caught e)), db2)"
                using Inl by (simp add: task_step_def)
              from task_run.continued [OF this caught] show ?thesis
                using Inr \<open>readCsvFile srv path = Some read\<close> csv res sv None Inl assms
                by (simp add: processFileAsync_def)
            next
              case upd: (Inr db3)
              have "task_step srv now (?t (Saved result)) db2 = (None, db3)"
                using upd by (simp add: task_step_def)
              then have "task_run srv now (?t (Saved result)) db2 db3"
                by (rule task_run.finished)
              then show ?thesis
                using Inr \<open>readCsvFile srv path = Some read\<close> csv res sv None upd assms
                by (simp add: processFileAsync_def)
            qed
            with s3 show ?thesis by (rule task_run.continued)
          qed
          with s2 show ?thesis by (rule task_run.continued)
        qed
      qed
    qed
    with s1 show ?thesis by (rule task_run.continued)
  qed
qed

lemma processFileAsync_hangs_no_run:
  assumes "processFileAsync srv now fileId path sessionId db = Hangs d"
  shows "\<not> task_run srv now
           \<lparr>task_fileId = fileId, task_filePath = path, task_sessionId = sessionId,
            task_at = Started\<rparr> db db'"
proof
  let ?t = "\<lambda>p. \<lparr>task_fileId = fileId, task_filePath = path, task_sessionId = sessionId,
                  task_at = p\<rparr>"
  assume run: "task_run srv now (?t Started) db db'"
  from assms obtain db1 where u: "fileUpload_update fileId mark_processing db = Inr db1"
    and r: "readCsvFile srv path = None"
    by (auto simp: processFileAsync_def split: sum.splits option.splits prod.splits)
  have s1: "task_step srv now (?t Started) db = (Some (?t Claimed), db1)"
    using u by (simp add: task_step_def)
  have stuck: "task_step srv now (?t Claimed) db1 = (Some (?t Claimed), db1)"
    using r by (simp add: task_step_def)
  from run s1 have "task_run srv now (?t Claimed) db1 db'"
    by (cases rule: task_run.cases) auto
  with stuck show False by (rule task_run_stuck [rotated])
qed

subsection \<open>A completed job\<close>

lemma sample_task_simps [simp]:
  "task_fileId (sample_task p) = ''f1''"
  "task_filePath (sample_task p) = ''uploads/1-attendance.csv''"
  "task_sessionId (sample_task p) = None"
  "task_at (sample_task p) = p"
  "(sample_task p)\<lparr>task_at := p'\<rparr> = sample_task p'"
  by (simp_all add: sample_task_def new_task_def sample_upload_def)

lemma uploaded_system_eq:
  "uploaded_system =
     \<lparr>sys_db = \<lparr>fileUploads = [''f1'' \<mapsto> new_FileUpload sample_upload], processedRecords = []\<rparr>,
      sys_tasks = [sample_task Started]\<rparr>"
  by (simp add: uploaded_system_def accept_upload_def initial_system_def sample_task_def
      new_task_def)

lemma claimed_system_eq:
  "claimed_system =
     \<lparr>sys_db = \<lparr>fileUploads = [''f1'' \<mapsto> mark_processing (new_FileUpload sample_upload)],
                processedRecords = []\<rparr>,
      sys_tasks = [sample_task Claimed]\<rparr>"
  by (simp add: claimed_system_def uploaded_system_eq advance_def task_step_def
      fileUpload_update_def continue_task_def)

lemma matched_system_eq:
  "matched_system =
     \<lparr>sys_db = \<lparr>fileUploads = [''f1'' \<mapsto> mark_processing (new_FileUpload sample_upload)],
                processedRecords = []\<rparr>,
      sys_tasks = [sample_task (Matched sample_result)]\<rparr>"
  by (simp add: matched_system_def claimed_system_eq advance_def task_step_def
      readCsvFile_def answering_services_def continue_task_def)

lemma saved_system_eq:
  "saved_system =
     \<lparr>sys_db = \<lparr>fileUploads = [''f1'' \<mapsto> mark_processing (new_FileUpload sample_upload)],
                processedRecords = records_of ''f1'' sample_result\<rparr>,
      sys_tasks = [sample_task (Saved sample_result)]\<rparr>"
  by (simp add: saved_system_def matched_system_eq advance_def task_step_def continue_task_def
      save_records_succeed answering_services_def)

lemma completed_system_eq:
  "completed_system =
     \<lparr>sys_db =
        \<lparr>fileUploads = [''f1'' \<mapsto> completed_upload],
         processedRecords = records_of ''f1'' sample_result\<rparr>,
      sys_tasks = []\<rparr>"
  by (simp add: completed_system_def saved_system_eq advance_def task_step_def continue_task_def
      fileUpload_update_def completed_upload_def)

lemma reachable_completed_system: "reachable answering_services completed_system"
proof -
  have 1: "step answering_services initial_system uploaded_system"
    unfolding uploaded_system_def by (rule step.uploadFile) (simp add: initial_system_def)
  have 2: "step answering_services uploaded_system claimed_system"
    unfolding claimed_system_def by (rule step.run_task) (simp add: uploaded_system_eq)
  have 3: "step answering_services claimed_system matched_system"
    unfolding matched_system_def by (rule step.run_task) (simp add: claimed_system_eq)
  have 4: "step answering_services matched_system saved_system"
    unfolding saved_system_def by (rule step.run_task) (simp add: matched_system_eq)
  have 5: "step answering_services saved_system completed_system"
    unfolding completed_system_def by (rule step.run_task) (simp add: saved_system_eq)
  from 1 2 3 4 5 show ?thesis
    unfolding reachable_def by (meson rtranclp.rtrancl_into_rtrancl rtranclp.rtrancl_refl)
qed

lemma reupload_step: "(step answering_services)\<^sup>*\<^sup>* completed_system reuploaded_system"
proof -
  have "step answering_services completed_system reuploaded_system"
    unfolding reuploaded_system_def
    by (rule step.uploadFile) (simp add: completed_system_eq)
  then show ?thesis by (rule r_into_rtranclp)
qed

text \<open>
  Claim C9. A job in state \<open>COMPLETED\<close> is terminal: in every state the system can
  reach, whatever steps follow (uploads, refused requests, status queries, steps of the
  running jobs, in any order), the record of a completed job stays as it is. Uploading a
  file again, the same one included, stores a new record in state \<open>PENDING\<close> under an
  id of its own and starts a new job; the completed record is not touched.
\<close>

theorem completed_is_terminal:
  assumes "reachable srv s" and "(step srv)\<^sup>*\<^sup>* s s'"
    and "fileUploads (sys_db s) fileId = Some f" and "processingStatus f = COMPLETED"
    and "fileUploads (sys_db s') newId = None"
  shows "fileUploads (sys_db s') fileId = Some f \<and>
         step srv s' (accept_upload newId u s') \<and>
         fileUploads (sys_db (accept_upload newId u s')) fileId = Some f \<and>
         status_of (sys_db (accept_upload newId u s')) newId = Some PENDING \<and>
         newId \<noteq> fileId"
proof -
  have apart: "tasks_apart s" using assms(1) by (rule reachable_tasks_apart)
  have kept: "fileUploads (sys_db s') fileId = Some f"
    using steps_keep_completed [OF assms(2) apart assms(3,4)] by simp
  with assms(5) have new: "newId \<noteq> fileId" by auto
  have st: "step srv s' (accept_upload newId u s')"
    using assms(5) by (rule step.uploadFile)
  show ?thesis using kept new st
    by (simp add: accept_upload_def status_of_def new_FileUpload_def)
qed

theorem completed_is_terminal_witness:
  "reachable answering_services completed_system \<and>
   (step answering_services)\<^sup>*\<^sup>* completed_system completed_system \<and>
   status_of (sys_db completed_system) ''f1'' = Some COMPLETED \<and>
   fileUploads (sys_db completed_system) ''f2'' = None \<and>
   step answering_services completed_system reuploaded_system \<and>
   fileUploads (sys_db reuploaded_system) ''f1'' = Some completed_upload \<and>
   status_of (sys_db reuploaded_system) ''f2'' = Some PENDING"
proof -
  have a: "fileUploads (sys_db completed_system) ''f1'' = Some completed_upload"
    by (simp add: completed_system_eq)
  have b: "processingStatus completed_upload = COMPLETED"
    by (simp add: completed_upload_def)
  have c: "fileUploads (sys_db completed_system) ''f2'' = None"
    by (simp add: completed_system_eq)
  have d: "(step answering_services)\<^sup>*\<^sup>* completed_system completed_system" by simp
  from completed_is_terminal [OF reachable_completed_system d a b c, of sample_upload]
  show ?thesis
    using reachable_completed_system a b c
    by (simp add: reuploaded_system_def status_of_def)
qed

section \<open>The job around the service of the specification\<close>







lemma spec_rows_Nil: "spec_rows [] = []"
  by (simp add: spec_rows_def js_split_def)

lemma spec_service_no_rows:
  "request_csvData req = [] \<Longrightarrow>
   spec_processAttendanceMatching eng req = Inl (Error ''MalformedFileError: no data'')"
  by (simp add: spec_processAttendanceMatching_def spec_parse_def spec_rows_Nil)




subsection \<open>When the oracle fails\<close>





subsection \<open>Files without data rows\<close>

lemma header_only_csv_rows: "parse_csv header_only_csv = [[''Name'', ''Email'', ''Status'']]"
  by (simp add: header_only_csv_def parse_csv_def row_separator_def js_split_def split_row_def
      clean_cell_def js_trim_def strip_surrounding_quotes_def is_js_whitespace_def
      double_quote_def some_nonempty_def)

text \<open>
  Claim C7. A file without data rows is refused, never completed with zero results. At
  the attendance endpoint a text that parses to no data row (no row at all, or a header
  only) is answered with status 400 and an error message before the oracle is asked,
  whatever the oracle would say. In the background job a stored file without data rows
  gives no row to \<open>readCsvFile\<close>, the matching service of the specification receives the
  empty text and throws the parser's fatal error, and the job ends \<open>FAILED\<close> with that
  error stored and no result.
\<close>

theorem no_data_rows_rejected:
  assumes "csvData body = Some csv" and "drop 1 (parse_csv csv) = []"
    and "fileUploads db fileId = Some f"
    and "csv_parser srv path = Rows []"
    and "processAttendanceMatching srv = spec_processAttendanceMatching eng"
  shows "process_attendance ask JSON_parse clk body =
           Json400 (if csv = [] then ''CSV data is required''
                    else ''CSV must contain headers and at least one data row'') \<and>
         response_data (process_attendance ask JSON_parse clk body) = None \<and>
         processFileAsync srv now fileId path sessionId db =
           Returns (db\<lparr>fileUploads := (fileUploads db)(fileId \<mapsto>
              mark_failed (Error ''MalformedFileError: no data'') (mark_processing f))\<rparr>)"
proof -
  from assms(2) have "length (parse_csv csv) < 2" by simp
  with assms(1) have endpoint:
    "process_attendance ask JSON_parse clk body =
           Json400 (if csv = [] then ''CSV data is required''
                    else ''CSV must contain headers and at least one data row'') \<and>
         response_data (process_attendance ask JSON_parse clk body) = None"
    by (simp add: process_attendance_def response_data_def Let_def)
  have read: "readCsvFile srv path = Some (Inr [])"
    using readCsvFile_Rows [OF assms(4)] by simp
  have "processAttendanceMatching srv
          \<lparr>request_fileName = basename path, request_csvData = [],
           request_sessionId = sessionId\<rparr> = Inl (Error ''MalformedFileError: no data'')"
    using assms(5) by (simp add: spec_service_no_rows)
  from processFileAsync_service_throws [OF assms(3) read this] endpoint
  show ?thesis by (simp add: response_data_def)
qed

theorem no_data_rows_rejected_witness:
  "drop 1 (parse_csv header_only_csv) = [] \<and>
   process_attendance low_confidence_oracle JSON_parse_sample clock0
       \<lparr>csvData = Some header_only_csv, students = []\<rparr> =
     Json400 ''CSV must contain headers and at least one data row'' \<and>
   status_of (tables_after (processFileAsync (spec_services timeout_engine (Rows [])) 10 ''f1''
       ''uploads/1-attendance.csv'' None one_upload_db)) ''f1'' = Some FAILED \<and>
   map_option processingResult (fileUploads (tables_after (processFileAsync
       (spec_services timeout_engine (Rows [])) 10 ''f1''
       ''uploads/1-attendance.csv'' None one_upload_db)) ''f1'') = Some None"
proof -
  let ?srv = "spec_services timeout_engine (Rows [])"
  have a: "csvData \<lparr>csvData = Some header_only_csv, students = []\<rparr> = Some header_only_csv"
    by simp
  have b: "drop 1 (parse_csv header_only_csv) = []"
    by (simp add: header_only_csv_rows)
  have c: "header_only_csv \<noteq> []" by (simp add: header_only_csv_def)
  have f: "fileUploads one_upload_db ''f1'' = Some (new_FileUpload sample_upload)"
    by (simp add: one_upload_db_def)
  have rows: "csv_parser ?srv ''uploads/1-attendance.csv'' = Rows []"
    and svc: "processAttendanceMatching ?srv = spec_processAttendanceMatching timeout_engine"
    by (simp_all add: spec_services_def)
  from no_data_rows_rejected [where ask = low_confidence_oracle and JSON_parse = JSON_parse_sample
      and clk = clock0 and srv = "?srv" and now = 10 and sessionId = None,
      OF a b f rows svc] b c
  show ?thesis
    by (simp add: tables_after_def status_of_def mark_failed_def mark_processing_def
        new_FileUpload_def)
qed

end
